theory Spec2Isabelle
  imports Complex_Main "HOL-Library.Multiset"
begin

section \<open>Batched Room-to-Room navigation environment (tasks/R2R/env.py)\<close>

text \<open>
  A shallow embedding of \<^verbatim>\<open>tasks/R2R/env.py\<close>. Python integers are \<^typ>\<open>int\<close>.
  Python floats (headings, elevations, coordinates) are \<^typ>\<open>real\<close> numbers, every double
  being one; sums and differences are taken exactly, and signed zeros are outside the
  model. In the blind turn the code compares against the double \<^verbatim>\<open>math.pi\<close>, which is
  the rational \<open>math_pi\<close> below and not \<^term>\<open>pi\<close>. The thresholds \<^verbatim>\<open>\<plusminus>math.pi/6.0\<close> of the
  visible case are written with \<^term>\<open>pi\<close>: no double lies between \<^verbatim>\<open>math.pi/6.0\<close> and
  \<open>\<pi>/6\<close>, so on doubles the comparisons are the same.
  Exceptions are values of \<open>py_error\<close>; a function that may raise returns
  \<open>py_error + 'a\<close> with \<open>Inl\<close> for the exception that leaves the call.
\<close>

datatype py_error =
  KeyError | IndexError | AssertionError | AttributeError | SystemExit int

type_synonym action = "int \<times> int \<times> int"

subsection \<open>Simulator state as read by the oracle\<close>

text \<open>
  \<^verbatim>\<open>state.location\<close> and the entries of \<^verbatim>\<open>state.navigableLocations\<close> are viewpoint
  objects of the simulator; only the attributes the environment reads are kept.
\<close>

record ViewPoint =
  viewpointId :: string
  point :: "real \<times> real \<times> real"
  rel_heading :: real
  rel_elevation :: real

record SimState =
  scanId :: string
  location :: ViewPoint
  viewIndex :: int
  heading :: real
  elevation :: real
  step :: int
  navigableLocations :: "ViewPoint list"

text \<open>
  \<^verbatim>\<open>self.paths[scan][src][dst]\<close> is a list of viewpoint ids;
  \<^verbatim>\<open>self.graphs[scan].node[v]['position']\<close> is a 3D point. A missing key raises
  \<^verbatim>\<open>KeyError\<close>.
\<close>

type_synonym path_table = "string \<rightharpoonup> (string \<rightharpoonup> (string \<rightharpoonup> string list))"
type_synonym graph_table = "string \<rightharpoonup> (string \<rightharpoonup> real \<times> real \<times> real)"

subsection \<open>The shortest-path oracle\<close>

text \<open>
  The double \<^verbatim>\<open>math.pi\<close>, \<open>0x400921FB54442D18\<close>: exactly \<open>884279719003555 / 2\<^sup>4\<^sup>8\<close>.
  Halving and doubling a double are exact, so \<^verbatim>\<open>math.pi/2.0\<close> and \<^verbatim>\<open>2.0*math.pi\<close> are
  \<open>math_pi / 2\<close> and \<open>2 * math_pi\<close>.
\<close>

definition math_pi :: real where
  "math_pi = 884279719003555 / 281474976710656"

text \<open>
  \<^verbatim>\<open>math.atan2(y, x)\<close>, a library function with values in \<open>[-math_pi, math_pi]\<close>. On the
  axes it returns the doubles \<open>0\<close>, \<open>\<plusminus>math_pi / 2\<close> and \<open>math_pi\<close>; the model has these
  values there and the arc tangent of the quotient, moved by \<open>\<plusminus>math_pi\<close> into the left
  half-plane, elsewhere.
\<close>

definition atan2 :: "real \<Rightarrow> real \<Rightarrow> real" where
  "atan2 y x =
     (if 0 < x then arctan (y / x)
      else if x < 0 then
        (if 0 \<le> y then arctan (y / x) + math_pi else arctan (y / x) - math_pi)
      else if 0 < y then math_pi / 2
      else if y < 0 then - math_pi / 2
      else 0)"

text \<open>
  Lines 253-254: \<^verbatim>\<open>path = self.paths[scan][cur][goal]; nextViewpointId = path[1]\<close>.
\<close>

definition next_hop :: "path_table \<Rightarrow> SimState \<Rightarrow> string \<Rightarrow> py_error + string" where
  "next_hop paths state goalViewpointId =
     (case paths (scanId state) of
        None \<Rightarrow> Inl KeyError
      | Some by_src \<Rightarrow>
          (case by_src (viewpointId (location state)) of
             None \<Rightarrow> Inl KeyError
           | Some by_dst \<Rightarrow>
               (case by_dst goalViewpointId of
                  None \<Rightarrow> Inl KeyError
                | Some path \<Rightarrow>
                    (case path of
                       [] \<Rightarrow> Inl IndexError
                     | [_] \<Rightarrow> Inl IndexError
                     | _ # nextViewpointId # _ \<Rightarrow> Inr nextViewpointId))))"

text \<open>
  The body of the loop at lines 259-268, for the location \<open>loc\<close> found at index \<open>i\<close>.
\<close>

definition face_then_move :: "int \<Rightarrow> int \<Rightarrow> ViewPoint \<Rightarrow> action" where
  "face_then_move vi i loc =
     (if rel_heading loc > pi / 6 then (0, 1, 0)
      else if rel_heading loc < - pi / 6 then (0, -1, 0)
      else if rel_elevation loc > pi / 6 \<and> vi div 12 < 2 then (0, 0, 1)
      else if rel_elevation loc < - pi / 6 \<and> vi div 12 > 0 then (0, 0, -1)
      else (i, 0, 0))"

text \<open>
  The loop \<^verbatim>\<open>for i,loc in enumerate(state.navigableLocations)\<close>: it returns at the
  first location whose id is the next hop; \<open>None\<close> means the loop ran to its end.
\<close>

fun visible_action :: "string \<Rightarrow> int \<Rightarrow> int \<Rightarrow> ViewPoint list \<Rightarrow> action option" where
  "visible_action nextViewpointId vi i [] = None"
| "visible_action nextViewpointId vi i (loc # locs) =
     (if viewpointId loc = nextViewpointId then Some (face_then_move vi i loc)
      else visible_action nextViewpointId vi (i + 1) locs)"

text \<open>
  Lines 275-278: the bearing of \<open>target_rel\<close>, clockwise from the y axis, moved into
  \<open>[0, 2 * math_pi)\<close>.
\<close>

definition target_heading :: "real \<times> real \<times> real \<Rightarrow> real" where
  "target_heading target_rel =
     (let th = math_pi / 2 - atan2 (fst (snd target_rel)) (fst target_rel)
      in if th < 0 then th + 2 * math_pi else th)"

text \<open>Lines 279-283: which way to turn, from the current heading \<open>h\<close> to bearing \<open>t\<close>.\<close>

definition turn_towards :: "real \<Rightarrow> real \<Rightarrow> action" where
  "turn_towards h t =
     (if h > t \<and> h - t < math_pi then (0, -1, 0)
      else if t > h \<and> t - h > math_pi then (0, -1, 0)
      else (0, 1, 0))"

definition point_diff :: "real \<times> real \<times> real \<Rightarrow> real \<times> real \<times> real \<Rightarrow> real \<times> real \<times> real" where
  "point_diff p q = (fst p - fst q, fst (snd p) - fst (snd q), snd (snd p) - snd (snd q))"

text \<open>
  Lines 269-283, reached when the loop found no location with the next hop's id: first
  bring the camera to the middle elevation band, then turn towards the next hop.
\<close>

definition unseen_action :: "graph_table \<Rightarrow> SimState \<Rightarrow> string \<Rightarrow> py_error + action" where
  "unseen_action graphs state nextViewpointId =
     (if viewIndex state div 12 = 0 then Inr (0, 0, 1)
      else if viewIndex state div 12 = 2 then Inr (0, 0, -1)
      else
        (case graphs (scanId state) of
           None \<Rightarrow> Inl KeyError
         | Some nodes \<Rightarrow>
             (case nodes nextViewpointId of
                None \<Rightarrow> Inl KeyError
              | Some position \<Rightarrow>
                  Inr (turn_towards (heading state)
                         (target_heading (point_diff position (point (location state))))))))"

definition shortest_path_action ::
  "path_table \<Rightarrow> graph_table \<Rightarrow> SimState \<Rightarrow> string \<Rightarrow> py_error + action" where
  "shortest_path_action paths graphs state goalViewpointId =
     (if viewpointId (location state) = goalViewpointId then Inr (0, 0, 0)
      else
        (case next_hop paths state goalViewpointId of
           Inl e \<Rightarrow> Inl e
         | Inr nextViewpointId \<Rightarrow>
             (case visible_action nextViewpointId (viewIndex state) 0 (navigableLocations state) of
                Some a \<Rightarrow> Inr a
              | None \<Rightarrow> unseen_action graphs state nextViewpointId)))"

text \<open>
  The decision rules for a visible next hop as the specification words them: look up only
  from the bottom band (group 0), look down only from the top band (group 2).
\<close>

definition spec_face_then_move :: "int \<Rightarrow> int \<Rightarrow> ViewPoint \<Rightarrow> action" where
  "spec_face_then_move vi i loc =
     (if rel_heading loc > pi / 6 then (0, 1, 0)
      else if rel_heading loc < - pi / 6 then (0, -1, 0)
      else if rel_elevation loc > pi / 6 \<and> vi div 12 = 0 then (0, 0, 1)
      else if rel_elevation loc < - pi / 6 \<and> vi div 12 = 2 then (0, 0, -1)
      else (i, 0, 0))"





subsection \<open>Simulators and the batch of environments\<close>

text \<open>
  The simulator is an external object. It is modelled by what the environment does to
  it: the settings written by \<^verbatim>\<open>EnvBatch.__init__\<close> and the sequence of
  \<^verbatim>\<open>newEpisode\<close> and \<^verbatim>\<open>makeAction\<close> calls it has received. \<open>sim_id\<close> is the
  identity of the object: the number of simulators constructed before it.
\<close>

record WorldState =
  ws_scanId :: string
  ws_viewpointId :: string
  ws_heading :: real
  ws_elevation :: real

datatype sim_call = NewEpisode WorldState | MakeAction int int int

record Simulator =
  sim_id :: nat
  renderingEnabled :: bool
  discretizedViewingAngles :: bool
  cameraResolution :: "int \<times> int"
  cameraVFOV :: real
  initialized :: bool
  calls :: "sim_call list"

record ImageFeatures =
  image_w :: int
  image_h :: int
  vfov :: int

definition load_world_state :: "Simulator \<Rightarrow> WorldState \<Rightarrow> Simulator" where
  "load_world_state sim world_state = sim\<lparr>calls := calls sim @ [NewEpisode world_state]\<rparr>"


record EnvBatch =
  sims :: "Simulator list list"
  env_batch_size :: int
  env_beam_size :: int
  env_image_features :: ImageFeatures

text \<open>Lines 115-120: a new simulator, configured and initialised; \<open>c\<close> is its identity.\<close>

definition new_simulator :: "ImageFeatures \<Rightarrow> nat \<Rightarrow> Simulator" where
  "new_simulator imgf c =
     \<lparr>sim_id = c, renderingEnabled = False, discretizedViewingAngles = True,
      cameraResolution = (image_w imgf, image_h imgf),
      cameraVFOV = real_of_int (vfov imgf) * pi / 180,
      initialized = True, calls = []\<rparr>"

text \<open>
  The loops of \<^verbatim>\<open>EnvBatch.__init__\<close>: \<open>make_beam\<close> is \<^verbatim>\<open>for j in range(beam_size)\<close>,
  \<open>make_sims\<close> is \<^verbatim>\<open>for i in range(batch_size)\<close>; both thread the number of simulators
  constructed so far.
\<close>

fun make_beam :: "ImageFeatures \<Rightarrow> nat \<Rightarrow> nat \<Rightarrow> Simulator list \<times> nat" where
  "make_beam imgf 0 c = ([], c)"
| "make_beam imgf (Suc k) c =
     (case make_beam imgf k (Suc c) of (beam, c') \<Rightarrow> (new_simulator imgf c # beam, c'))"

fun make_sims :: "ImageFeatures \<Rightarrow> nat \<Rightarrow> nat \<Rightarrow> nat \<Rightarrow> Simulator list list \<times> nat" where
  "make_sims imgf 0 k c = ([], c)"
| "make_sims imgf (Suc n) k c =
     (case make_beam imgf k c of (beam, c') \<Rightarrow>
        (case make_sims imgf n k c' of (rest, c'') \<Rightarrow> (beam # rest, c'')))"

definition EnvBatch_init :: "ImageFeatures \<Rightarrow> int \<Rightarrow> int \<Rightarrow> nat \<Rightarrow> EnvBatch \<times> nat" where
  "EnvBatch_init imgf batch_size beam_size c =
     (case make_sims imgf (nat batch_size) (nat beam_size) c of (ss, c') \<Rightarrow>
        (\<lparr>sims = ss, env_batch_size = batch_size, env_beam_size = beam_size,
          env_image_features = imgf\<rparr>, c'))"

text \<open>
  A batch-shaped value is a list with one entry per agent, or, when \<^verbatim>\<open>beamed\<close>, a list
  of lists with one entry per beam slot. The constructor plays the role of the
  \<^verbatim>\<open>beamed\<close> flag.
\<close>

datatype 'a batched = Flat "'a list" | Beamed "'a list list"

text \<open>
  \<^verbatim>\<open>EnvBatch.newEpisodes\<close>, lines 135-141: the loop over
  \<^verbatim>\<open>enumerate(zip(scanIds, viewpointIds, headings))\<close>, walking \<^verbatim>\<open>self.sims\<close> by the same
  index. \<^verbatim>\<open>self.sims[i][0]\<close> raises \<^verbatim>\<open>IndexError\<close> when the row is missing or empty.
  The loop appends one pose per triple, so the closing assertion at line 142 cannot fail
  and has no branch of its own.
\<close>

fun load_episodes ::
  "Simulator list list \<Rightarrow> (string \<times> string \<times> real) list
     \<Rightarrow> py_error + (WorldState list \<times> Simulator list list)" where
  "load_episodes ss [] = Inr ([], ss)"
| "load_episodes [] (x # xs) = Inl IndexError"
| "load_episodes (beam # ss) ((scan, vp, hdg) # xs) =
     (case beam of
        [] \<Rightarrow> Inl IndexError
      | sim # others \<Rightarrow>
          (let world_state =
                 \<lparr>ws_scanId = scan, ws_viewpointId = vp, ws_heading = hdg, ws_elevation = 0\<rparr>
           in case load_episodes ss xs of
                Inl e \<Rightarrow> Inl e
              | Inr (world_states, ss') \<Rightarrow>
                  Inr (world_state # world_states,
                       (load_world_state sim world_state # others) # ss')))"

definition newEpisodes ::
  "EnvBatch \<Rightarrow> string list \<Rightarrow> string list \<Rightarrow> real list \<Rightarrow> bool
     \<Rightarrow> py_error + (WorldState batched \<times> EnvBatch)" where
  "newEpisodes env scanIds viewpointIds headings beamed =
     (if length scanIds \<noteq> length viewpointIds then Inl AssertionError
      else if length headings \<noteq> length viewpointIds then Inl AssertionError
      else if length scanIds \<noteq> length (sims env) then Inl AssertionError
      else
        (case load_episodes (sims env) (zip scanIds (zip viewpointIds headings)) of
           Inl e \<Rightarrow> Inl e
         | Inr (world_states, ss) \<Rightarrow>
             Inr (if beamed then Beamed (map (\<lambda>w. [w]) world_states) else Flat world_states,
                  env\<lparr>sims := ss\<rparr>)))"










text \<open>
  The initial pose of agent \<open>i\<close> as the specification describes it: the given scan,
  viewpoint and heading, and elevation 0.
\<close>

definition initial_pose :: "string list \<Rightarrow> string list \<Rightarrow> real list \<Rightarrow> nat \<Rightarrow> WorldState" where
  "initial_pose scanIds viewpointIds headings i =
     \<lparr>ws_scanId = scanIds ! i, ws_viewpointId = viewpointIds ! i, ws_heading = headings ! i,
      ws_elevation = 0\<rparr>"

subsection \<open>The task pool and its minibatch cursor\<close>

text \<open>
  An entry of \<^verbatim>\<open>self.data\<close> is a dictionary; the record keeps the keys the environment
  reads. \<^verbatim>\<open>instr_length\<close> is present only when a tokenizer was given.
\<close>

record Item =
  item_scan :: string
  item_path :: "string list"
  item_heading :: real
  instr_id :: string
  instructions :: string
  instr_length :: "int option"

text \<open>
  The fields of \<^verbatim>\<open>R2RBatch\<close> that the modelled methods touch. \<open>batch\<close>, \<open>beam_size\<close> and
  \<open>env\<close> are \<open>None\<close> while the attribute does not exist yet. Two pieces of process state are carried
  along: \<open>rng\<close>, the state of the \<^verbatim>\<open>random\<close> module, and \<open>sims_created\<close>, the number of
  simulator objects constructed so far.
\<close>

record 'r R2RBatch =
  image_features :: ImageFeatures
  data :: "Item list"
  ix :: int
  batch_size :: int
  batch :: "Item list option"
  beam_size :: "int option"
  env :: "EnvBatch option"
  rng :: 'r
  sims_created :: nat

text \<open>
  Python's \<^verbatim>\<open>xs[lo:hi]\<close>: a negative bound counts from the end, and both bounds are
  clamped to the list.
\<close>

definition slice_index :: "int \<Rightarrow> int \<Rightarrow> nat" where
  "slice_index n i = nat (if i < 0 then max 0 (i + n) else min i n)"

definition py_slice :: "'a list \<Rightarrow> int \<Rightarrow> int \<Rightarrow> 'a list" where
  "py_slice xs lo hi =
     (let n = int (length xs); a = slice_index n lo; b = slice_index n hi
      in take (b - a) (drop a xs))"

text \<open>
  \<^verbatim>\<open>sorted(batch, key=lambda item: item['instr_length'], reverse=True)\<close>: a stable sort,
  longest first; an item without the key raises \<^verbatim>\<open>KeyError\<close>.
\<close>

definition sorted_by_length :: "Item list \<Rightarrow> py_error + Item list" where
  "sorted_by_length b =
     (if list_all (\<lambda>item. instr_length item \<noteq> None) b
      then Inr (sort_key (\<lambda>item. - the (instr_length item)) b)
      else Inl KeyError)"

text \<open>
  \<^verbatim>\<open>R2RBatch._next_minibatch\<close>. \<^verbatim>\<open>random.shuffle\<close> is a parameter: it takes the
  generator state and the list, and returns the shuffled list and the new state.
\<close>

definition next_minibatch ::
  "('r \<Rightarrow> Item list \<Rightarrow> Item list \<times> 'r) \<Rightarrow> bool \<Rightarrow> 'r R2RBatch \<Rightarrow> py_error + 'r R2RBatch" where
  "next_minibatch shuffle sorting st =
     (let b0 = py_slice (data st) (ix st) (ix st + batch_size st);
          (st1, b1) =
            (if int (length b0) < batch_size st then
               (case shuffle (rng st) (data st) of (d, r) \<Rightarrow>
                  (let i = batch_size st - int (length b0)
                   in (st\<lparr>data := d, rng := r, ix := i\<rparr>, b0 @ py_slice d 0 i)))
             else (st\<lparr>ix := ix st + batch_size st\<rparr>, b0))
      in if sorting then
           (case sorted_by_length b1 of
              Inl e \<Rightarrow> Inl e
            | Inr b2 \<Rightarrow> Inr (st1\<lparr>batch := Some b2\<rparr>))
         else Inr (st1\<lparr>batch := Some b1\<rparr>))"



text \<open>
  The batches handed out by \<open>n\<close> successive calls of \<^verbatim>\<open>_next_minibatch\<close>, and by \<open>n\<close>
  successive calls of \<^verbatim>\<open>reset\<close> (which loads the next minibatch by default): after each
  call \<^verbatim>\<open>self.batch\<close> is read.
\<close>

fun draw_batches ::
  "('r \<Rightarrow> Item list \<Rightarrow> Item list \<times> 'r) \<Rightarrow> bool \<Rightarrow> nat \<Rightarrow> 'r R2RBatch
     \<Rightarrow> py_error + Item list list" where
  "draw_batches shuffle sorting 0 st = Inr []"
| "draw_batches shuffle sorting (Suc n) st =
     (case next_minibatch shuffle sorting st of
        Inl e \<Rightarrow> Inl e
      | Inr st' \<Rightarrow>
          (case batch st' of
             None \<Rightarrow> Inl AttributeError
           | Some b \<Rightarrow>
               (case draw_batches shuffle sorting n st' of
                  Inl e \<Rightarrow> Inl e
                | Inr bs \<Rightarrow> Inr (b # bs))))"



text \<open>
  The specification's "stable-sorts the batch descending by instruction token length":
  \<open>b\<close> holds the items of \<open>b0\<close>, longest first, items of equal length in their order in
  \<open>b0\<close>.
\<close>

definition stably_sorted_descending :: "Item list \<Rightarrow> Item list \<Rightarrow> bool" where
  "stably_sorted_descending b0 b \<longleftrightarrow>
     mset b = mset b0 \<and>
     sorted_wrt (\<lambda>x y. the (instr_length x) \<ge> the (instr_length y)) b \<and>
     (\<forall>k. filter (\<lambda>item. instr_length item = k) b = filter (\<lambda>item. instr_length item = k) b0)"


text \<open>
  The cursor as the specification words it: mid-epoch when \<open>ix < N - batchSize\<close>,
  epoch-wrap when \<open>ix \<ge> N - batchSize\<close>.
\<close>

definition spec_next_minibatch ::
  "('r \<Rightarrow> Item list \<Rightarrow> Item list \<times> 'r) \<Rightarrow> 'r R2RBatch \<Rightarrow> 'r R2RBatch" where
  "spec_next_minibatch shuffle st =
     (if ix st < int (length (data st)) - batch_size st then
        st\<lparr>ix := ix st + batch_size st,
           batch := Some (py_slice (data st) (ix st) (ix st + batch_size st))\<rparr>
      else
        (case shuffle (rng st) (data st) of (d, r) \<Rightarrow>
           (let leftover = py_slice (data st) (ix st) (ix st + batch_size st);
                remainder = batch_size st - int (length leftover)
            in st\<lparr>data := d, rng := r, ix := remainder,
                  batch := Some (leftover @ py_slice d 0 remainder)\<rparr>)))"

text \<open>
  \<^verbatim>\<open>R2RBatch.set_beam_size\<close>. Reading \<^verbatim>\<open>self.beam_size\<close> before it exists raises, and
  the bare \<^verbatim>\<open>except\<close> turns that into \<^verbatim>\<open>invalid = True\<close>.
\<close>

definition set_beam_size :: "int \<Rightarrow> 'r R2RBatch \<Rightarrow> 'r R2RBatch" where
  "set_beam_size b st =
     (let invalid = (case beam_size st of None \<Rightarrow> True | Some cur \<Rightarrow> b \<noteq> cur)
      in if invalid then
           (case EnvBatch_init (image_features st) (batch_size st) b (sims_created st) of
              (e, c) \<Rightarrow> st\<lparr>beam_size := Some b, env := Some e, sims_created := c\<rparr>)
         else st)"

subsection \<open>Example data\<close>

text \<open>
  A scan \<open>s\<close> with the path \<open>a, b, c\<close>: the agent stands at \<open>a\<close>, the goal is \<open>c\<close>, the
  next hop \<open>b\<close> lies one unit to the north. As in the simulator, the first navigable
  location is the current viewpoint itself.
\<close>

definition here :: ViewPoint where
  "here = \<lparr>viewpointId = ''a'', point = (0, 0, 0), rel_heading = 0, rel_elevation = 0\<rparr>"

definition hop_above :: ViewPoint where
  "hop_above =
     \<lparr>viewpointId = ''b'', point = (0, 1, 0), rel_heading = 0, rel_elevation = pi / 3\<rparr>"

definition hop_ahead :: ViewPoint where
  "hop_ahead =
     \<lparr>viewpointId = ''b'', point = (0, 1, 0), rel_heading = 0, rel_elevation = 0\<rparr>"


definition example_paths :: path_table where
  "example_paths = [''s'' \<mapsto> [''a'' \<mapsto> [''c'' \<mapsto> [''a'', ''b'', ''c'']]]]"

definition example_graphs :: graph_table where
  "example_graphs = [''s'' \<mapsto> [''b'' \<mapsto> (0, 1, 0)]]"

definition example_state :: "int \<Rightarrow> real \<Rightarrow> ViewPoint list \<Rightarrow> SimState" where
  "example_state vi h locs =
     \<lparr>scanId = ''s'', location = here, viewIndex = vi, heading = h, elevation = 0, step = 0,
      navigableLocations = locs\<rparr>"

text \<open>
  A pool of four tasks, told apart by their instruction length, with a stand-in for
  \<^verbatim>\<open>random.shuffle\<close> that reverses the list.
\<close>

definition task :: "int \<Rightarrow> Item" where
  "task k =
     \<lparr>item_scan = ''s'', item_path = [''a'', ''b'', ''c''], item_heading = 0,
      instr_id = ''t'', instructions = [], instr_length = Some k\<rparr>"

definition example_shuffle :: "nat \<Rightarrow> Item list \<Rightarrow> Item list \<times> nat" where
  "example_shuffle r xs = (rev xs, Suc r)"

definition example_features :: ImageFeatures where
  "example_features = \<lparr>image_w = 640, image_h = 480, vfov = 60\<rparr>"

definition example_pool :: "int \<Rightarrow> int \<Rightarrow> nat R2RBatch" where
  "example_pool bs i =
     \<lparr>image_features = example_features,
      data = [task 1, task 2, task 3, task 4], ix = i, batch_size = bs, batch = None,
      beam_size = None, env = None, rng = 0, sims_created = 0\<rparr>"

text \<open>Two agents with two beam slots each, as \<^verbatim>\<open>EnvBatch.__init__\<close> builds them.\<close>

definition example_env :: EnvBatch where
  "example_env = fst (EnvBatch_init example_features 2 2 0)"

text \<open>One agent and beam size 0: a row without simulators.\<close>

definition beamless_env :: EnvBatch where
  "beamless_env = fst (EnvBatch_init example_features 1 0 0)"

section \<open>Properties of the oracle\<close>

lemma next_hop_example: "next_hop example_paths (example_state vi h locs) ''c'' = Inr ''b''"
  by (simp add: next_hop_def example_paths_def example_state_def here_def)

lemma turn_towards_cases: "turn_towards h t = (0, -1, 0) \<or> turn_towards h t = (0, 1, 0)"
  by (simp add: turn_towards_def)

lemma turn_towards_not_move: "0 < i \<Longrightarrow> turn_towards h t \<noteq> (i, 0, 0)"
  by (simp add: turn_towards_def)

subsection \<open>The next hop is visible\<close>

lemma visible_action_first:
  "j < length locs \<Longrightarrow> viewpointId (locs ! j) = n \<Longrightarrow> \<forall>k<j. viewpointId (locs ! k) \<noteq> n \<Longrightarrow>
   visible_action n vi i0 locs = Some (face_then_move vi (i0 + int j) (locs ! j))"
proof (induction locs arbitrary: i0 j)
  case Nil
  then show ?case by simp
next
  case (Cons loc locs)
  show ?case
  proof (cases j)
    case 0
    with Cons.prems show ?thesis by simp
  next
    case (Suc j')
    with Cons.prems have ne: "viewpointId loc \<noteq> n" by auto
    have "visible_action n vi (i0 + 1) locs
          = Some (face_then_move vi (i0 + 1 + int j') (locs ! j'))"
      using Cons.prems Suc by (intro Cons.IH) auto
    with ne Suc show ?thesis by (simp add: add.assoc)
  qed
qed

text \<open>
  C1, as the code has it. When the state is not at the goal and the next hop first occurs
  in the navigable-location list at index \<open>j\<close>, with relative heading \<open>rh\<close> and relative
  elevation \<open>re\<close>, the oracle returns the first matching rule of: turn right if
  \<open>rh > \<pi>/6\<close>; turn left if \<open>rh < -\<pi>/6\<close>; look up if \<open>re > \<pi>/6\<close> and the camera is below the
  top band (\<open>viewIndex // 12 < 2\<close>); look down if \<open>re < -\<pi>/6\<close> and the camera is above the
  bottom band (\<open>viewIndex // 12 > 0\<close>); otherwise move to index \<open>j\<close>.
\<close>

theorem oracle_visible_next_hop:
  assumes "viewpointId (location state) \<noteq> goalViewpointId"
    and "next_hop paths state goalViewpointId = Inr n"
    and "j < length (navigableLocations state)"
    and "viewpointId (navigableLocations state ! j) = n"
    and "\<forall>k<j. viewpointId (navigableLocations state ! k) \<noteq> n"
    and "rh = rel_heading (navigableLocations state ! j)"
    and "re = rel_elevation (navigableLocations state ! j)"
  shows "shortest_path_action paths graphs state goalViewpointId =
         Inr (if rh > pi / 6 then (0, 1, 0)
              else if rh < - pi / 6 then (0, -1, 0)
              else if re > pi / 6 \<and> viewIndex state div 12 < 2 then (0, 0, 1)
              else if re < - pi / 6 \<and> viewIndex state div 12 > 0 then (0, 0, -1)
              else (int j, 0, 0))"
  using assms(1,2,6,7) visible_action_first [OF assms(3,4,5), of "viewIndex state" 0]
  by (simp add: shortest_path_action_def face_then_move_def)

theorem oracle_visible_next_hop_witness:
  "viewpointId (location (example_state 12 0 [here, hop_above])) \<noteq> ''c'' \<and>
   next_hop example_paths (example_state 12 0 [here, hop_above]) ''c'' = Inr ''b'' \<and>
   viewpointId (navigableLocations (example_state 12 0 [here, hop_above]) ! 1) = ''b'' \<and>
   shortest_path_action example_paths example_graphs
     (example_state 12 0 [here, hop_above]) ''c'' = Inr (0, 0, 1)"
proof -
  let ?st = "example_state 12 0 [here, hop_above]"
  have h1: "viewpointId (location ?st) \<noteq> ''c''"
    by (simp add: example_state_def here_def)
  have h2: "next_hop example_paths ?st ''c'' = Inr ''b''"
    by (rule next_hop_example)
  have h3: "1 < length (navigableLocations ?st)"
    by (simp add: example_state_def)
  have h4: "viewpointId (navigableLocations ?st ! 1) = ''b''"
    by (simp add: example_state_def hop_above_def)
  have h5: "\<forall>k<1. viewpointId (navigableLocations ?st ! k) \<noteq> ''b''"
    by (simp add: example_state_def here_def)
  have v: "rel_heading (navigableLocations ?st ! 1) = 0"
    "rel_elevation (navigableLocations ?st ! 1) = pi / 3" "viewIndex ?st = 12"
    by (simp_all add: example_state_def hop_above_def)
  from oracle_visible_next_hop [OF h1 h2 h3 h4 h5 v(1) [symmetric] v(2) [symmetric],
      of example_graphs]
  have "shortest_path_action example_paths example_graphs ?st ''c'' = Inr (0, 0, 1)"
    by (simp add: v(3))
  with h1 h2 h4 show ?thesis by simp
qed

text \<open>
  The wording of C1 fails in the middle band: with the next hop at index 1, straight ahead
  and \<open>\<pi>/3\<close> above the camera, and view index 12, the code looks up, while the rules as
  worded (look up only from band 0) give the move \<open>(1, 0, 0)\<close>.
\<close>

theorem oracle_look_up_from_middle_band:
  "shortest_path_action example_paths example_graphs
     (example_state 12 0 [here, hop_above]) ''c'' = Inr (0, 0, 1) \<and>
   spec_face_then_move (viewIndex (example_state 12 0 [here, hop_above])) 1
     (navigableLocations (example_state 12 0 [here, hop_above]) ! 1) = (1, 0, 0)"
  by (simp add: shortest_path_action_def next_hop_example)
     (simp add: example_state_def here_def hop_above_def face_then_move_def
        spec_face_then_move_def)

subsection \<open>At the goal\<close>

text \<open>
  C4: when the current viewpoint is the goal, the oracle returns the no-op action
  \<open>(0, 0, 0)\<close>, whatever the path table, the graphs and the navigable locations are.
\<close>

theorem oracle_noop_at_goal:
  "viewpointId (location state) = goalViewpointId \<Longrightarrow>
   shortest_path_action paths graphs state goalViewpointId = Inr (0, 0, 0)"
  by (simp add: shortest_path_action_def)

theorem oracle_noop_at_goal_witness:
  "viewpointId (location (example_state 12 0 [])) = ''a'' \<and>
   shortest_path_action Map.empty Map.empty (example_state 12 0 []) ''a'' = Inr (0, 0, 0)"
  using oracle_noop_at_goal [of "example_state 12 0 []" "''a''" Map.empty Map.empty]
  by (simp add: example_state_def here_def)

subsection \<open>Elevation-band gating\<close>

lemma visible_action_no_up:
  "vi div 12 = 2 \<Longrightarrow> visible_action n vi i locs \<noteq> Some (0, 0, 1)"
  by (induction locs arbitrary: i) (auto simp: face_then_move_def)

lemma visible_action_no_down:
  "vi div 12 = 0 \<Longrightarrow> visible_action n vi i locs \<noteq> Some (0, 0, -1)"
  by (induction locs arbitrary: i) (auto simp: face_then_move_def)

lemma unseen_no_up:
  "viewIndex state div 12 = 2 \<Longrightarrow> unseen_action graphs state n \<noteq> Inr (0, 0, 1)"
  using turn_towards_cases
  by (auto simp: unseen_action_def split: option.splits)

lemma unseen_no_down:
  "viewIndex state div 12 = 0 \<Longrightarrow> unseen_action graphs state n \<noteq> Inr (0, 0, -1)"
  by (auto simp: unseen_action_def split: option.splits)

text \<open>
  C3: for every state, goal and tables, the oracle does not return look up \<open>(0, 0, 1)\<close>
  when \<open>viewIndex // 12 = 2\<close>, and does not return look down \<open>(0, 0, -1)\<close> when
  \<open>viewIndex // 12 = 0\<close>.
\<close>

theorem oracle_elevation_gating:
  "(viewIndex state div 12 = 2 \<longrightarrow>
      shortest_path_action paths graphs state goalViewpointId \<noteq> Inr (0, 0, 1)) \<and>
   (viewIndex state div 12 = 0 \<longrightarrow>
      shortest_path_action paths graphs state goalViewpointId \<noteq> Inr (0, 0, -1))"
  using visible_action_no_up visible_action_no_down unseen_no_up unseen_no_down
  by (auto simp: shortest_path_action_def split: sum.splits option.splits)

theorem oracle_elevation_gating_witness:
  "viewIndex (example_state 24 0 [here, hop_above]) div 12 = 2 \<and>
   shortest_path_action example_paths example_graphs
     (example_state 24 0 [here, hop_above]) ''c'' \<noteq> Inr (0, 0, 1) \<and>
   viewIndex (example_state 0 0 [here]) div 12 = 0 \<and>
   shortest_path_action example_paths example_graphs
     (example_state 0 0 [here]) ''c'' \<noteq> Inr (0, 0, -1)"
proof -
  have t: "viewIndex (example_state 24 0 [here, hop_above]) div 12 = 2"
    by (simp add: example_state_def)
  have b: "viewIndex (example_state 0 0 [here]) div 12 = 0"
    by (simp add: example_state_def)
  from t b
    oracle_elevation_gating
      [of "example_state 24 0 [here, hop_above]" example_paths example_graphs "''c''"]
    oracle_elevation_gating
      [of "example_state 0 0 [here]" example_paths example_graphs "''c''"]
  show ?thesis by blast
qed

subsection \<open>Moves only towards a neighbour that is faced\<close>

lemma visible_action_move:
  "visible_action n vi i0 locs = Some (i, 0, 0) \<Longrightarrow>
   i0 \<le> i \<and> nat (i - i0) < length locs \<and> viewpointId (locs ! nat (i - i0)) = n \<and>
   \<bar>rel_heading (locs ! nat (i - i0))\<bar> \<le> pi / 6"
proof (induction locs arbitrary: i0)
  case Nil
  then show ?case by simp
next
  case (Cons loc locs)
  show ?case
  proof (cases "viewpointId loc = n")
    case True
    with Cons.prems have "face_then_move vi i0 loc = (i, 0, 0)" by simp
    then have "i = i0 \<and> \<bar>rel_heading loc\<bar> \<le> pi / 6"
      by (auto simp: face_then_move_def split: if_splits)
    with True show ?thesis by simp
  next
    case False
    with Cons.prems have "visible_action n vi (i0 + 1) locs = Some (i, 0, 0)" by simp
    from Cons.IH [OF this]
    have *: "i0 + 1 \<le> i" "nat (i - (i0 + 1)) < length locs"
      "viewpointId (locs ! nat (i - (i0 + 1))) = n"
      "\<bar>rel_heading (locs ! nat (i - (i0 + 1)))\<bar> \<le> pi / 6"
      by simp_all
    have "nat (i - i0) = Suc (nat (i - (i0 + 1)))" using *(1) by simp
    with * show ?thesis by simp
  qed
qed

lemma unseen_not_move: "0 < i \<Longrightarrow> unseen_action graphs state n \<noteq> Inr (i, 0, 0)"
  by (auto simp: unseen_action_def turn_towards_not_move split: option.splits)

text \<open>
  C5: whenever the oracle returns a move action \<open>(i, 0, 0)\<close> with \<open>i > 0\<close>, index \<open>i\<close> is
  within the navigable-location list, the location there is the next hop, and its
  relative heading is at most \<open>\<pi>/6\<close> in magnitude.
\<close>

theorem oracle_move_turn_bound:
  assumes "shortest_path_action paths graphs state goalViewpointId = Inr (i, 0, 0)"
    and "0 < i"
  shows "nat i < length (navigableLocations state) \<and>
         next_hop paths state goalViewpointId
           = Inr (viewpointId (navigableLocations state ! nat i)) \<and>
         \<bar>rel_heading (navigableLocations state ! nat i)\<bar> \<le> pi / 6"
proof -
  from assms obtain n where n: "next_hop paths state goalViewpointId = Inr n"
    and v: "visible_action n (viewIndex state) 0 (navigableLocations state) = Some (i, 0, 0)"
    using unseen_not_move [OF assms(2)]
    by (auto simp: shortest_path_action_def split: if_splits sum.splits option.splits)
  from visible_action_move [OF v] n show ?thesis by simp
qed

theorem oracle_move_turn_bound_witness:
  "shortest_path_action example_paths example_graphs
     (example_state 12 0 [here, hop_ahead]) ''c'' = Inr (1, 0, 0) \<and>
   \<bar>rel_heading (navigableLocations (example_state 12 0 [here, hop_ahead]) ! nat 1)\<bar>
     \<le> pi / 6"
proof -
  have h: "shortest_path_action example_paths example_graphs
             (example_state 12 0 [here, hop_ahead]) ''c'' = Inr (1, 0, 0)"
    by (simp add: shortest_path_action_def next_hop_example)
       (simp add: example_state_def here_def hop_ahead_def face_then_move_def)
  from oracle_move_turn_bound [OF h] h show ?thesis by simp
qed

subsection \<open>The next hop is out of view\<close>

lemma math_pi_bounds: "3 < math_pi" "math_pi < 4" "0 < math_pi"
  by (simp_all add: math_pi_def)






text \<open>North is 0, east a quarter turn, south a half turn, west three quarters.\<close>

lemma target_heading_axes:
  assumes "0 < d"
  shows "target_heading (0, d, z) = 0" and "target_heading (d, 0, z) = math_pi / 2"
    and "target_heading (0, - d, z) = math_pi" and "target_heading (- d, 0, z) = 3 * math_pi / 2"
  using assms math_pi_bounds(3) by (simp_all add: target_heading_def atan2_def Let_def)









section \<open>Properties of the minibatch cursor\<close>

lemma py_slice_from:
  assumes "0 \<le> lo" "0 \<le> len"
  shows "py_slice xs lo (lo + len) = take (nat len) (drop (nat lo) xs)"
proof (cases "lo \<le> int (length xs)")
  case True
  have "slice_index (int (length xs)) lo = nat lo"
    using assms True by (simp add: slice_index_def min_def)
  moreover have "slice_index (int (length xs)) (lo + len)
                 = nat (min (lo + len) (int (length xs)))"
    using assms by (simp add: slice_index_def)
  moreover have "take (nat (min (lo + len) (int (length xs))) - nat lo) (drop (nat lo) xs)
      = take (nat len) (drop (nat lo) xs)"
  proof (cases "lo + len \<le> int (length xs)")
    case le: True
    have "nat (lo + len) - nat lo = nat len" using assms by linarith
    with le show ?thesis by (simp add: min_def)
  next
    case gt: False
    have "length xs - nat lo \<le> nat len" using assms gt by linarith
    with gt show ?thesis by (simp add: min_def)
  qed
  ultimately show ?thesis by (simp add: py_slice_def Let_def)
next
  case False
  then have "drop (nat lo) xs = []" by simp
  moreover have "slice_index (int (length xs)) lo = length xs"
    using assms False by (simp add: slice_index_def min_def)
  ultimately show ?thesis by (simp add: py_slice_def Let_def)
qed

lemma py_slice_prefix: "0 \<le> i \<Longrightarrow> py_slice xs 0 i = take (nat i) xs"
  using py_slice_from [of 0 i xs] by simp

lemma next_minibatch_mid:
  assumes "0 < batch_size st" "0 \<le> ix st" "ix st + batch_size st \<le> int (length (data st))"
  shows "next_minibatch shuffle False st =
         Inr (st\<lparr>ix := ix st + batch_size st,
                 batch := Some (take (nat (batch_size st)) (drop (nat (ix st)) (data st)))\<rparr>)"
proof -
  have s: "py_slice (data st) (ix st) (ix st + batch_size st)
           = take (nat (batch_size st)) (drop (nat (ix st)) (data st))"
    using assms by (intro py_slice_from) simp_all
  have "length (take (nat (batch_size st)) (drop (nat (ix st)) (data st))) = nat (batch_size st)"
    using assms by simp
  then have "\<not> int (length (take (nat (batch_size st)) (drop (nat (ix st)) (data st))))
               < batch_size st"
    using assms by simp
  then show ?thesis by (simp add: next_minibatch_def s Let_def)
qed

lemma next_minibatch_wrap:
  assumes "0 < batch_size st" "0 \<le> ix st" "int (length (data st)) < ix st + batch_size st"
    and "shuffle (rng st) (data st) = (d, r)"
    and "leftover = drop (nat (ix st)) (data st)"
  shows "next_minibatch shuffle False st =
         Inr (st\<lparr>data := d, rng := r, ix := batch_size st - int (length leftover),
                 batch := Some (leftover
                                @ take (nat (batch_size st - int (length leftover))) d)\<rparr>)"
proof -
  have "length (drop (nat (ix st)) (data st)) \<le> nat (batch_size st)"
    using assms(1-3) by simp
  then have t: "take (nat (batch_size st)) (drop (nat (ix st)) (data st)) = leftover"
    using assms(5) by simp
  have s: "py_slice (data st) (ix st) (ix st + batch_size st) = leftover"
    using py_slice_from [of "ix st" "batch_size st" "data st"] assms(1,2) t by simp
  have l: "int (length leftover) < batch_size st"
    using assms(1-3,5) by simp
  then have p: "py_slice d 0 (batch_size st - int (length leftover))
             = take (nat (batch_size st - int (length leftover))) d"
    by (intro py_slice_prefix) simp
  show ?thesis using l by (simp add: next_minibatch_def s p assms(4) Let_def)
qed


text \<open>Sorting changes the batch only: cursor, pool and generator are those of the unsorted call.\<close>

lemma next_minibatch_sorted:
  "next_minibatch shuffle True st =
     (case next_minibatch shuffle False st of
        Inl e \<Rightarrow> Inl e
      | Inr st1 \<Rightarrow>
          (case sorted_by_length (the (batch st1)) of
             Inl e \<Rightarrow> Inl e
           | Inr b \<Rightarrow> Inr (st1\<lparr>batch := Some b\<rparr>)))"
  by (simp add: next_minibatch_def Let_def case_prod_beta split: sum.splits)

lemma sorted_by_length_ok:
  assumes "list_all (\<lambda>item. instr_length item \<noteq> None) b"
  shows "\<exists>b2. sorted_by_length b = Inr b2 \<and> stably_sorted_descending b b2"
proof -
  define f where "f = (\<lambda>item :: Item. - the (instr_length item))"
  define b2 where "b2 = sort_key f b"
  have e: "sorted_by_length b = Inr b2"
    using assms by (simp add: sorted_by_length_def b2_def f_def)
  have m: "mset b2 = mset b" by (simp add: b2_def)
  have "sorted (map f b2)" by (simp add: b2_def)
  then have s: "sorted_wrt (\<lambda>x y. the (instr_length x) \<ge> the (instr_length y)) b2"
    by (simp add: sorted_map f_def)
  have a: "\<forall>item\<in>set b. instr_length item \<noteq> None" using assms by (simp add: list_all_iff)
  have st: "filter (\<lambda>item. instr_length item = k) b2 = filter (\<lambda>item. instr_length item = k) b"
    for k
  proof (cases k)
    case None
    have "set b2 = set b" using m by (metis set_mset_mset)
    with a None have "filter (\<lambda>item. instr_length item = k) b2 = []"
      "filter (\<lambda>item. instr_length item = k) b = []"
      by (auto simp: filter_empty_conv)
    then show ?thesis by simp
  next
    case (Some v)
    have sb: "set b2 = set b" using m by (metis set_mset_mset)
    have "filter (\<lambda>item. instr_length item = k) b2 = filter (\<lambda>item. f item = - v) b2"
      using a sb Some by (intro filter_cong) (auto simp: f_def)
    also have "\<dots> = filter (\<lambda>item. f item = - v) b"
      by (simp add: b2_def sort_key_stable)
    also have "\<dots> = filter (\<lambda>item. instr_length item = k) b"
      using a Some by (intro filter_cong) (auto simp: f_def)
    finally show ?thesis .
  qed
  from e m s st show ?thesis by (auto simp: stably_sorted_descending_def)
qed

lemma sorted_by_length_KeyError:
  "\<not> list_all (\<lambda>item. instr_length item \<noteq> None) b \<Longrightarrow> sorted_by_length b = Inl KeyError"
  by (simp add: sorted_by_length_def)

lemma next_minibatch_any:
  assumes "next_minibatch shuffle False st = Inr (st1\<lparr>batch := Some b1\<rparr>)"
  shows "(\<not> sorting \<longrightarrow> next_minibatch shuffle sorting st = Inr (st1\<lparr>batch := Some b1\<rparr>)) \<and>
         (sorting \<and> list_all (\<lambda>item. instr_length item \<noteq> None) b1 \<longrightarrow>
            (\<exists>b2. next_minibatch shuffle sorting st = Inr (st1\<lparr>batch := Some b2\<rparr>) \<and>
                  stably_sorted_descending b1 b2)) \<and>
         (sorting \<and> \<not> list_all (\<lambda>item. instr_length item \<noteq> None) b1 \<longrightarrow>
            next_minibatch shuffle sorting st = Inl KeyError)"
proof (intro conjI impI)
  assume "\<not> sorting"
  with assms show "next_minibatch shuffle sorting st = Inr (st1\<lparr>batch := Some b1\<rparr>)" by simp
next
  assume a: "sorting \<and> list_all (\<lambda>item. instr_length item \<noteq> None) b1"
  from sorted_by_length_ok [of b1] a obtain b2 where
    "sorted_by_length b1 = Inr b2" "stably_sorted_descending b1 b2" by blast
  with a assms
  show "\<exists>b2. next_minibatch shuffle sorting st = Inr (st1\<lparr>batch := Some b2\<rparr>) \<and>
                  stably_sorted_descending b1 b2"
    by (auto simp: next_minibatch_sorted)
next
  assume a: "sorting \<and> \<not> list_all (\<lambda>item. instr_length item \<noteq> None) b1"
  with assms sorted_by_length_KeyError [of b1]
  show "next_minibatch shuffle sorting st = Inl KeyError"
    by (auto simp: next_minibatch_sorted)
qed

text \<open>
  C6, as the code has it. With a positive batch size and a cursor \<open>ix \<ge> 0\<close> over a pool of
  \<open>N\<close> tasks, a call of \<^verbatim>\<open>_next_minibatch\<close> is in one of two states. Mid-epoch,
  \<open>ix \<le> N - batchSize\<close>: the tasks drawn are the slice \<open>data[ix:ix+batchSize]\<close>, the
  cursor advances by \<open>batchSize\<close>, and pool and generator are untouched. Epoch-wrap,
  \<open>ix > N - batchSize\<close>: the leftover \<open>data[ix:]\<close> is taken, the whole pool is reshuffled,
  the tasks drawn are the leftover followed by the first \<open>batchSize - |leftover|\<close> tasks of
  the reshuffled pool, and the cursor is reset to that remainder. In both states the
  batch stored is the list of tasks drawn when \<^verbatim>\<open>sort\<close> is off; when \<^verbatim>\<open>sort\<close> is on it is
  that list stably sorted by decreasing instruction length, and the call raises
  \<^verbatim>\<open>KeyError\<close> (cursor and pool already updated) if a drawn task has no instruction length.
\<close>

theorem minibatch_cursor_states:
  assumes "0 < batch_size st" and "0 \<le> ix st"
    and "shuffle (rng st) (data st) = (d, r)"
    and "leftover = drop (nat (ix st)) (data st)"
    and "slice = take (nat (batch_size st)) (drop (nat (ix st)) (data st))"
    and "wrapped = leftover @ take (nat (batch_size st - int (length leftover))) d"
    and "mid = st\<lparr>ix := ix st + batch_size st\<rparr>"
    and "wrap = st\<lparr>data := d, rng := r, ix := batch_size st - int (length leftover)\<rparr>"
  shows "(ix st \<le> int (length (data st)) - batch_size st \<longrightarrow>
            (\<not> sorting \<longrightarrow>
               next_minibatch shuffle sorting st = Inr (mid\<lparr>batch := Some slice\<rparr>)) \<and>
            (sorting \<and> list_all (\<lambda>item. instr_length item \<noteq> None) slice \<longrightarrow>
               (\<exists>b. next_minibatch shuffle sorting st = Inr (mid\<lparr>batch := Some b\<rparr>) \<and>
                    stably_sorted_descending slice b)) \<and>
            (sorting \<and> \<not> list_all (\<lambda>item. instr_length item \<noteq> None) slice \<longrightarrow>
               next_minibatch shuffle sorting st = Inl KeyError)) \<and>
         (ix st > int (length (data st)) - batch_size st \<longrightarrow>
            (\<not> sorting \<longrightarrow>
               next_minibatch shuffle sorting st = Inr (wrap\<lparr>batch := Some wrapped\<rparr>)) \<and>
            (sorting \<and> list_all (\<lambda>item. instr_length item \<noteq> None) wrapped \<longrightarrow>
               (\<exists>b. next_minibatch shuffle sorting st = Inr (wrap\<lparr>batch := Some b\<rparr>) \<and>
                    stably_sorted_descending wrapped b)) \<and>
            (sorting \<and> \<not> list_all (\<lambda>item. instr_length item \<noteq> None) wrapped \<longrightarrow>
               next_minibatch shuffle sorting st = Inl KeyError))"
proof (intro conjI impI; (elim conjE)?)
  assume "ix st \<le> int (length (data st)) - batch_size st"
  then have "ix st + batch_size st \<le> int (length (data st))" by simp
  from next_minibatch_mid [OF assms(1,2) this, of shuffle]
  have u: "next_minibatch shuffle False st = Inr (mid\<lparr>batch := Some slice\<rparr>)"
    by (simp add: assms(5,7))
  note a = next_minibatch_any [OF u, of sorting]
  {
    assume "\<not> sorting"
    with a show "next_minibatch shuffle sorting st = Inr (mid\<lparr>batch := Some slice\<rparr>)"
      by blast
  next
    assume "sorting" "list_all (\<lambda>item. instr_length item \<noteq> None) slice"
    with a show "\<exists>b. next_minibatch shuffle sorting st = Inr (mid\<lparr>batch := Some b\<rparr>) \<and>
                    stably_sorted_descending slice b"
      by blast
  next
    assume "sorting" "\<not> list_all (\<lambda>item. instr_length item \<noteq> None) slice"
    with a show "next_minibatch shuffle sorting st = Inl KeyError" by blast
  }
next
  assume "ix st > int (length (data st)) - batch_size st"
  then have "int (length (data st)) < ix st + batch_size st" by simp
  from next_minibatch_wrap [where shuffle = shuffle, OF assms(1,2) this assms(3,4)]
  have u: "next_minibatch shuffle False st = Inr (wrap\<lparr>batch := Some wrapped\<rparr>)"
    by (simp add: assms(6,8))
  note a = next_minibatch_any [OF u, of sorting]
  {
    assume "\<not> sorting"
    with a show "next_minibatch shuffle sorting st = Inr (wrap\<lparr>batch := Some wrapped\<rparr>)"
      by blast
  next
    assume "sorting" "list_all (\<lambda>item. instr_length item \<noteq> None) wrapped"
    with a show "\<exists>b. next_minibatch shuffle sorting st = Inr (wrap\<lparr>batch := Some b\<rparr>) \<and>
                    stably_sorted_descending wrapped b"
      by blast
  next
    assume "sorting" "\<not> list_all (\<lambda>item. instr_length item \<noteq> None) wrapped"
    with a show "next_minibatch shuffle sorting st = Inl KeyError" by blast
  }
qed

theorem minibatch_cursor_states_witness:
  "next_minibatch example_shuffle False (example_pool 2 2)
     = Inr ((example_pool 2 2)\<lparr>ix := 4, batch := Some [task 3, task 4]\<rparr>) \<and>
   next_minibatch example_shuffle False (example_pool 3 3)
     = Inr ((example_pool 3 3)\<lparr>data := [task 4, task 3, task 2, task 1], rng := 1, ix := 2,
                               batch := Some [task 4, task 4, task 3]\<rparr>) \<and>
   (\<exists>b. next_minibatch example_shuffle True (example_pool 2 2)
          = Inr ((example_pool 2 2)\<lparr>ix := 4, batch := Some b\<rparr>) \<and>
        stably_sorted_descending [task 3, task 4] b) \<and>
   next_minibatch example_shuffle True (example_pool 2 2)
     = Inr ((example_pool 2 2)\<lparr>ix := 4, batch := Some [task 4, task 3]\<rparr>)"
proof -
  have a: "0 < batch_size (example_pool 2 2)" "0 \<le> ix (example_pool 2 2)"
    "0 < batch_size (example_pool 3 3)" "0 \<le> ix (example_pool 3 3)"
    by (simp_all add: example_pool_def)
  have s2: "example_shuffle (rng (example_pool 2 2)) (data (example_pool 2 2))
            = ([task 4, task 3, task 2, task 1], 1)"
    and s3: "example_shuffle (rng (example_pool 3 3)) (data (example_pool 3 3))
            = ([task 4, task 3, task 2, task 1], 1)"
    by (simp_all add: example_pool_def example_shuffle_def)
  have l: "list_all (\<lambda>item. instr_length item \<noteq> None) [task 3, task 4]"
    by (simp add: task_def)
  from minibatch_cursor_states
         [where shuffle = example_shuffle and sorting = False, OF a(1,2) s2 refl refl refl refl refl]
  have 1: "next_minibatch example_shuffle False (example_pool 2 2)
             = Inr ((example_pool 2 2)\<lparr>ix := 4, batch := Some [task 3, task 4]\<rparr>)"
    by (simp add: example_pool_def)
  from minibatch_cursor_states
         [where shuffle = example_shuffle and sorting = False, OF a(3,4) s3 refl refl refl refl refl]
  have 2: "next_minibatch example_shuffle False (example_pool 3 3)
     = Inr ((example_pool 3 3)\<lparr>data := [task 4, task 3, task 2, task 1], rng := 1, ix := 2,
                               batch := Some [task 4, task 4, task 3]\<rparr>)"
    by (simp add: example_pool_def)
  from minibatch_cursor_states
         [where shuffle = example_shuffle and sorting = True, OF a(1,2) s2 refl refl refl refl refl]
  have 3: "\<exists>b. next_minibatch example_shuffle True (example_pool 2 2)
          = Inr ((example_pool 2 2)\<lparr>ix := 4, batch := Some b\<rparr>) \<and>
        stably_sorted_descending [task 3, task 4] b"
    using l by (simp add: example_pool_def)
  have 4: "next_minibatch example_shuffle True (example_pool 2 2)
     = Inr ((example_pool 2 2)\<lparr>ix := 4, batch := Some [task 4, task 3]\<rparr>)"
    by (simp add: next_minibatch_def example_pool_def py_slice_def slice_index_def Let_def
        sorted_by_length_def task_def)
  from 1 2 3 4 show ?thesis by (intro conjI)
qed

text \<open>
  The wording of C6 fails at the boundary \<open>ix = N - batchSize\<close>: with four tasks, batch
  size 2 and cursor 2, the code hands out the last two tasks and moves the cursor to 4
  without reshuffling, while the cursor as worded wraps, reshuffles and resets to 0.
\<close>

theorem minibatch_boundary_is_mid_epoch:
  "map_sum id ix (next_minibatch example_shuffle False (example_pool 2 2)) = Inr 4 \<and>
   map_sum id data (next_minibatch example_shuffle False (example_pool 2 2))
     = Inr [task 1, task 2, task 3, task 4] \<and>
   ix (spec_next_minibatch example_shuffle (example_pool 2 2)) = 0 \<and>
   data (spec_next_minibatch example_shuffle (example_pool 2 2))
     = [task 4, task 3, task 2, task 1]"
  by (simp add: next_minibatch_def spec_next_minibatch_def example_pool_def example_shuffle_def
      py_slice_def slice_index_def Let_def)

section \<open>Properties of the batch of environments\<close>

lemma make_beam_props:
  "make_beam imgf k c = (beam, c') \<Longrightarrow>
   c' = c + k \<and> beam = map (new_simulator imgf) [c..<c + k]"
proof (induction k arbitrary: c beam c')
  case 0
  then show ?case by simp
next
  case (Suc k)
  obtain b1 c1 where r: "make_beam imgf k (Suc c) = (b1, c1)"
    by (cases "make_beam imgf k (Suc c)")
  from Suc.IH [OF r]
  have i: "c1 = Suc c + k" "b1 = map (new_simulator imgf) [Suc c..<Suc c + k]"
    by simp_all
  have s: "beam = new_simulator imgf c # b1" "c' = c1" using Suc.prems r by simp_all
  have "[c..<c + Suc k] = c # [Suc c..<c + Suc k]" by (rule upt_conv_Cons) simp
  then have "map (new_simulator imgf) [c..<c + Suc k] = new_simulator imgf c # b1"
    using i by simp
  with s i show ?case by simp
qed

lemma make_sims_props:
  "make_sims imgf n k c = (ss, c') \<Longrightarrow>
   c' = c + n * k \<and> length ss = n \<and> (\<forall>beam\<in>set ss. length beam = k) \<and>
   concat ss = map (new_simulator imgf) [c..<c + n * k]"
proof (induction n arbitrary: c ss c')
  case 0
  then show ?case by simp
next
  case (Suc n)
  obtain b1 c1 where b: "make_beam imgf k c = (b1, c1)"
    by (cases "make_beam imgf k c")
  obtain r1 c2 where r: "make_sims imgf n k c1 = (r1, c2)"
    by (cases "make_sims imgf n k c1")
  from make_beam_props [OF b]
  have b': "c1 = c + k" "b1 = map (new_simulator imgf) [c..<c + k]"
    by simp_all
  from Suc.IH [OF r]
  have r': "c2 = c1 + n * k" "length r1 = n" "\<forall>beam\<in>set r1. length beam = k"
    "concat r1 = map (new_simulator imgf) [c1..<c1 + n * k]" by simp_all
  have s: "ss = b1 # r1" "c' = c2" using Suc.prems b r by simp_all
  have "[c..<(c + k) + n * k] = [c..<c + k] @ [c + k..<(c + k) + n * k]"
    by (rule upt_add_eq_append) simp
  moreover have "c + Suc n * k = (c + k) + n * k" by simp
  ultimately have "[c..<c + Suc n * k] = [c..<c + k] @ [c1..<c1 + n * k]"
    using b' by (simp only:)
  then have "concat ss = map (new_simulator imgf) [c..<c + Suc n * k]"
    using s b' r' by (simp only: concat.simps map_append)
  with s b' r' show ?case by simp
qed

text \<open>
  What \<^verbatim>\<open>EnvBatch.__init__\<close> establishes: for a batch size \<open>\<ge> 0\<close> and a beam size \<open>\<ge> 1\<close> the
  array has \<open>batch_size\<close> rows, none of them empty.
\<close>

lemma EnvBatch_init_rows:
  assumes "0 \<le> n" and "1 \<le> k"
  shows "int (length (sims (fst (EnvBatch_init imgf n k c))))
           = env_batch_size (fst (EnvBatch_init imgf n k c)) \<and>
         [] \<notin> set (sims (fst (EnvBatch_init imgf n k c)))"
proof -
  obtain ss c' where m: "make_sims imgf (nat n) (nat k) c = (ss, c')"
    by (cases "make_sims imgf (nat n) (nat k) c")
  from make_sims_props [OF m]
  have l: "length ss = nat n" and b: "\<forall>beam\<in>set ss. length beam = nat k" by simp_all
  have "[] \<notin> set ss"
  proof
    assume "[] \<in> set ss"
    with b have "length ([] :: Simulator list) = nat k" by blast
    with assms(2) show False by simp
  qed
  with l assms(1) m show ?thesis by (simp add: EnvBatch_init_def)
qed

lemma example_env_sims:
  "sims example_env =
     [[new_simulator example_features 0, new_simulator example_features 1],
      [new_simulator example_features 2, new_simulator example_features 3]]"
  by (simp add: example_env_def EnvBatch_init_def numeral_2_eq_2 numeral_3_eq_3)

lemma example_env_batch_size: "env_batch_size example_env = 2"
  by (simp add: example_env_def EnvBatch_init_def case_prod_beta)

subsection \<open>New episodes\<close>

lemma load_episodes_ok:
  assumes "length xs = length ss" and "[] \<notin> set ss"
  shows "\<exists>ws ss'. load_episodes ss xs = Inr (ws, ss') \<and> length ws = length ss \<and>
           length ss' = length ss \<and>
           (\<forall>i<length ss.
              ws ! i = \<lparr>ws_scanId = fst (xs ! i), ws_viewpointId = fst (snd (xs ! i)),
                        ws_heading = snd (snd (xs ! i)), ws_elevation = 0\<rparr> \<and>
              ss' ! i = load_world_state (hd (ss ! i)) (ws ! i) # tl (ss ! i))"
  using assms
proof (induction ss xs rule: load_episodes.induct)
  case (1 ss)
  then show ?case by simp
next
  case (2 x xs)
  then show ?case by simp
next
  case (3 beam ss scan vp hdg xs)
  from "3.prems" obtain sim others where b: "beam = sim # others"
    by (cases beam) auto
  define w where
    "w = \<lparr>ws_scanId = scan, ws_viewpointId = vp, ws_heading = hdg, ws_elevation = 0\<rparr>"
  have "length xs = length ss" "[] \<notin> set ss" using "3.prems" by auto
  from "3.IH" [OF b w_def this] obtain ws ss' where r: "load_episodes ss xs = Inr (ws, ss')"
    and l: "length ws = length ss" "length ss' = length ss"
    and p: "\<forall>i<length ss.
              ws ! i = \<lparr>ws_scanId = fst (xs ! i), ws_viewpointId = fst (snd (xs ! i)),
                        ws_heading = snd (snd (xs ! i)), ws_elevation = 0\<rparr> \<and>
              ss' ! i = load_world_state (hd (ss ! i)) (ws ! i) # tl (ss ! i)"
    by blast
  have e: "load_episodes (beam # ss) ((scan, vp, hdg) # xs)
           = Inr (w # ws, (load_world_state sim w # others) # ss')"
    using b r by (simp add: w_def Let_def)
  show ?case
  proof (intro exI conjI allI impI)
    show "load_episodes (beam # ss) ((scan, vp, hdg) # xs)
           = Inr (w # ws, (load_world_state sim w # others) # ss')" by (rule e)
    show "length (w # ws) = length (beam # ss)" using l by simp
    show "length ((load_world_state sim w # others) # ss') = length (beam # ss)"
      using l by simp
  next
    fix i assume "i < length (beam # ss)"
    then show "(w # ws) ! i = \<lparr>ws_scanId = fst (((scan, vp, hdg) # xs) ! i),
          ws_viewpointId = fst (snd (((scan, vp, hdg) # xs) ! i)),
          ws_heading = snd (snd (((scan, vp, hdg) # xs) ! i)), ws_elevation = 0\<rparr>"
      using p by (cases i) (simp_all add: w_def)
  next
    fix i assume "i < length (beam # ss)"
    then show "((load_world_state sim w # others) # ss') ! i
       = load_world_state (hd ((beam # ss) ! i)) ((w # ws) ! i) # tl ((beam # ss) ! i)"
      using p b by (cases i) simp_all
  qed
qed

lemma beamless_env_sims: "sims beamless_env = [[]]"
  by (simp add: beamless_env_def EnvBatch_init_def)

lemma beamless_env_batch_size: "env_batch_size beamless_env = 1"
  by (simp add: beamless_env_def EnvBatch_init_def case_prod_beta)

text \<open>
  C8, as the code has it. For an environment whose simulator array has \<open>batchSize\<close> rows.
  When \<open>scanIds\<close>, \<open>viewpointIds\<close> and \<open>headings\<close> all have length \<open>batchSize\<close> and every
  row has a slot 0 (beam size at least 1), \<^verbatim>\<open>newEpisodes\<close> returns one pose per agent,
  carrying the given scan, viewpoint and heading with elevation 0 (each wrapped in a
  one-element list when beamed); in every row the simulator in slot 0 receives one more
  call, \<^verbatim>\<open>newEpisode\<close> with that pose, and is otherwise unchanged, and the other slots stay
  as they were. When the three lengths are not all \<open>batchSize\<close>, the call raises
  \<^verbatim>\<open>AssertionError\<close>.
\<close>

theorem newEpisodes_initial_poses:
  assumes "int (length (sims eb)) = env_batch_size eb"
  shows "(length scanIds = nat (env_batch_size eb) \<and>
          length viewpointIds = nat (env_batch_size eb) \<and>
          length headings = nat (env_batch_size eb) \<and> [] \<notin> set (sims eb) \<longrightarrow>
          (\<exists>ws ss. newEpisodes eb scanIds viewpointIds headings beamed
                     = Inr (if beamed then Beamed (map (\<lambda>w. [w]) ws) else Flat ws,
                            eb\<lparr>sims := ss\<rparr>) \<and>
                   length ws = nat (env_batch_size eb) \<and>
                   length ss = nat (env_batch_size eb) \<and>
                   (\<forall>i<nat (env_batch_size eb).
                      ws ! i = initial_pose scanIds viewpointIds headings i \<and>
                      ss ! i =
                        (sims eb ! i ! 0)
                          \<lparr>calls := calls (sims eb ! i ! 0) @ [NewEpisode (ws ! i)]\<rparr>
                        # tl (sims eb ! i)))) \<and>
         (\<not> (length scanIds = nat (env_batch_size eb) \<and>
             length viewpointIds = nat (env_batch_size eb) \<and>
             length headings = nat (env_batch_size eb)) \<longrightarrow>
          newEpisodes eb scanIds viewpointIds headings beamed = Inl AssertionError)"
proof (intro conjI impI)
  assume a: "length scanIds = nat (env_batch_size eb) \<and>
          length viewpointIds = nat (env_batch_size eb) \<and>
          length headings = nat (env_batch_size eb) \<and> [] \<notin> set (sims eb)"
  have n: "length (sims eb) = nat (env_batch_size eb)" using assms by simp
  define xs where "xs = zip scanIds (zip viewpointIds headings)"
  have lx: "length xs = length (sims eb)" using a n by (simp add: xs_def)
  from load_episodes_ok [OF lx] a obtain ws ss where
    r: "load_episodes (sims eb) xs = Inr (ws, ss)"
    and l: "length ws = length (sims eb)" "length ss = length (sims eb)"
    and p: "\<forall>i<length (sims eb).
              ws ! i = \<lparr>ws_scanId = fst (xs ! i), ws_viewpointId = fst (snd (xs ! i)),
                        ws_heading = snd (snd (xs ! i)), ws_elevation = 0\<rparr> \<and>
              ss ! i = load_world_state (hd (sims eb ! i)) (ws ! i) # tl (sims eb ! i)"
    by blast
  have x: "\<And>i. i < length (sims eb) \<Longrightarrow>
             xs ! i = (scanIds ! i, viewpointIds ! i, headings ! i)"
    using a n by (simp add: xs_def)
  have h: "\<And>i. i < length (sims eb) \<Longrightarrow> hd (sims eb ! i) = sims eb ! i ! 0"
    using a by (metis hd_conv_nth nth_mem)
  have "newEpisodes eb scanIds viewpointIds headings beamed
          = Inr (if beamed then Beamed (map (\<lambda>w. [w]) ws) else Flat ws, eb\<lparr>sims := ss\<rparr>)"
    using a n r by (simp add: newEpisodes_def xs_def)
  moreover have "\<forall>i<nat (env_batch_size eb).
                      ws ! i = initial_pose scanIds viewpointIds headings i \<and>
                      ss ! i =
                        (sims eb ! i ! 0)
                          \<lparr>calls := calls (sims eb ! i ! 0) @ [NewEpisode (ws ! i)]\<rparr>
                        # tl (sims eb ! i)"
    using p x h n by (simp add: initial_pose_def load_world_state_def)
  ultimately show "\<exists>ws ss. newEpisodes eb scanIds viewpointIds headings beamed
                     = Inr (if beamed then Beamed (map (\<lambda>w. [w]) ws) else Flat ws,
                            eb\<lparr>sims := ss\<rparr>) \<and>
                   length ws = nat (env_batch_size eb) \<and>
                   length ss = nat (env_batch_size eb) \<and>
                   (\<forall>i<nat (env_batch_size eb).
                      ws ! i = initial_pose scanIds viewpointIds headings i \<and>
                      ss ! i =
                        (sims eb ! i ! 0)
                          \<lparr>calls := calls (sims eb ! i ! 0) @ [NewEpisode (ws ! i)]\<rparr>
                        # tl (sims eb ! i))"
    using l n by auto
next
  assume "\<not> (length scanIds = nat (env_batch_size eb) \<and>
             length viewpointIds = nat (env_batch_size eb) \<and>
             length headings = nat (env_batch_size eb))"
  then show "newEpisodes eb scanIds viewpointIds headings beamed = Inl AssertionError"
    using assms by (auto simp: newEpisodes_def)
qed

theorem newEpisodes_initial_poses_witness:
  "int (length (sims example_env)) = env_batch_size example_env \<and>
   [] \<notin> set (sims example_env) \<and>
   newEpisodes example_env [''s'', ''s''] [''a'', ''b''] [0, 1] False =
     Inr (Flat [\<lparr>ws_scanId = ''s'', ws_viewpointId = ''a'', ws_heading = 0, ws_elevation = 0\<rparr>,
                \<lparr>ws_scanId = ''s'', ws_viewpointId = ''b'', ws_heading = 1, ws_elevation = 0\<rparr>],
          example_env\<lparr>sims :=
            [[(new_simulator example_features 0)
                \<lparr>calls := [NewEpisode \<lparr>ws_scanId = ''s'', ws_viewpointId = ''a'',
                                        ws_heading = 0, ws_elevation = 0\<rparr>]\<rparr>,
              new_simulator example_features 1],
             [(new_simulator example_features 2)
                \<lparr>calls := [NewEpisode \<lparr>ws_scanId = ''s'', ws_viewpointId = ''b'',
                                        ws_heading = 1, ws_elevation = 0\<rparr>]\<rparr>,
              new_simulator example_features 3]]\<rparr>) \<and>
   (\<exists>ws ss. newEpisodes example_env [''s'', ''s''] [''a'', ''b''] [0, 1] True
              = Inr (Beamed (map (\<lambda>w. [w]) ws), example_env\<lparr>sims := ss\<rparr>) \<and>
            length ws = 2 \<and>
            ws ! 0 = initial_pose [''s'', ''s''] [''a'', ''b''] [0, 1] 0 \<and>
            ws ! 1 = initial_pose [''s'', ''s''] [''a'', ''b''] [0, 1] 1 \<and>
            calls (ss ! 0 ! 0) = [NewEpisode (ws ! 0)] \<and> calls (ss ! 0 ! 1) = [] \<and>
            calls (ss ! 1 ! 0) = [NewEpisode (ws ! 1)] \<and> calls (ss ! 1 ! 1) = []) \<and>
   newEpisodes example_env [''s''] [''a'', ''b''] [0, 1] False = Inl AssertionError"
proof -
  have h: "int (length (sims example_env)) = env_batch_size example_env"
    by (simp add: example_env_sims example_env_batch_size)
  have e: "[] \<notin> set (sims example_env)"
    by (simp add: example_env_sims)
  have v: "newEpisodes example_env [''s'', ''s''] [''a'', ''b''] [0, 1] False =
     Inr (Flat [\<lparr>ws_scanId = ''s'', ws_viewpointId = ''a'', ws_heading = 0, ws_elevation = 0\<rparr>,
                \<lparr>ws_scanId = ''s'', ws_viewpointId = ''b'', ws_heading = 1, ws_elevation = 0\<rparr>],
          example_env\<lparr>sims :=
            [[(new_simulator example_features 0)
                \<lparr>calls := [NewEpisode \<lparr>ws_scanId = ''s'', ws_viewpointId = ''a'',
                                        ws_heading = 0, ws_elevation = 0\<rparr>]\<rparr>,
              new_simulator example_features 1],
             [(new_simulator example_features 2)
                \<lparr>calls := [NewEpisode \<lparr>ws_scanId = ''s'', ws_viewpointId = ''b'',
                                        ws_heading = 1, ws_elevation = 0\<rparr>]\<rparr>,
              new_simulator example_features 3]]\<rparr>)"
    by (simp add: newEpisodes_def example_env_sims Let_def load_world_state_def
        new_simulator_def)
  have l: "length [''s'', ''s''] = nat (env_batch_size example_env) \<and>
           length [''a'', ''b''] = nat (env_batch_size example_env) \<and>
           length [0 :: real, 1] = nat (env_batch_size example_env) \<and>
           [] \<notin> set (sims example_env)"
    using e by (simp add: example_env_batch_size)
  have n: "\<not> (length [''s''] = nat (env_batch_size example_env) \<and>
              length [''a'', ''b''] = nat (env_batch_size example_env) \<and>
              length [0 :: real, 1] = nat (env_batch_size example_env))"
    by (simp add: example_env_batch_size)
  from newEpisodes_initial_poses [OF h, of "[''s'', ''s'']" "[''a'', ''b'']" "[0, 1]" True] l
  obtain ws ss where
    b: "newEpisodes example_env [''s'', ''s''] [''a'', ''b''] [0, 1] True
          = Inr (Beamed (map (\<lambda>w. [w]) ws), example_env\<lparr>sims := ss\<rparr>)"
    and lw: "length ws = nat (env_batch_size example_env)"
    and p: "\<forall>i<nat (env_batch_size example_env).
              ws ! i = initial_pose [''s'', ''s''] [''a'', ''b''] [0, 1] i \<and>
              ss ! i =
                (sims example_env ! i ! 0)
                  \<lparr>calls := calls (sims example_env ! i ! 0) @ [NewEpisode (ws ! i)]\<rparr>
                # tl (sims example_env ! i)"
    by auto
  have two: "nat (env_batch_size example_env) = 2" by (simp add: example_env_batch_size)
  have p0: "ws ! 0 = initial_pose [''s'', ''s''] [''a'', ''b''] [0, 1] 0"
    "ss ! 0 = (sims example_env ! 0 ! 0)
                  \<lparr>calls := calls (sims example_env ! 0 ! 0) @ [NewEpisode (ws ! 0)]\<rparr>
                # tl (sims example_env ! 0)"
    and p1: "ws ! 1 = initial_pose [''s'', ''s''] [''a'', ''b''] [0, 1] 1"
    "ss ! 1 = (sims example_env ! 1 ! 0)
                  \<lparr>calls := calls (sims example_env ! 1 ! 0) @ [NewEpisode (ws ! 1)]\<rparr>
                # tl (sims example_env ! 1)"
    using p two by simp_all
  have c: "calls (ss ! 0 ! 0) = [NewEpisode (ws ! 0)]" "calls (ss ! 0 ! 1) = []"
    "calls (ss ! 1 ! 0) = [NewEpisode (ws ! 1)]" "calls (ss ! 1 ! 1) = []"
    by (simp_all add: p0(2) p1(2) [unfolded One_nat_def] example_env_sims new_simulator_def)
  have x: "\<exists>ws ss. newEpisodes example_env [''s'', ''s''] [''a'', ''b''] [0, 1] True
              = Inr (Beamed (map (\<lambda>w. [w]) ws), example_env\<lparr>sims := ss\<rparr>) \<and>
            length ws = 2 \<and>
            ws ! 0 = initial_pose [''s'', ''s''] [''a'', ''b''] [0, 1] 0 \<and>
            ws ! 1 = initial_pose [''s'', ''s''] [''a'', ''b''] [0, 1] 1 \<and>
            calls (ss ! 0 ! 0) = [NewEpisode (ws ! 0)] \<and> calls (ss ! 0 ! 1) = [] \<and>
            calls (ss ! 1 ! 0) = [NewEpisode (ws ! 1)] \<and> calls (ss ! 1 ! 1) = []"
  proof (intro exI conjI)
    show "newEpisodes example_env [''s'', ''s''] [''a'', ''b''] [0, 1] True
            = Inr (Beamed (map (\<lambda>w. [w]) ws), example_env\<lparr>sims := ss\<rparr>)" by (rule b)
    show "length ws = 2" using lw two by simp
    show "ws ! 0 = initial_pose [''s'', ''s''] [''a'', ''b''] [0, 1] 0" by (rule p0(1))
    show "ws ! 1 = initial_pose [''s'', ''s''] [''a'', ''b''] [0, 1] 1" by (rule p1(1))
    show "calls (ss ! 0 ! 0) = [NewEpisode (ws ! 0)]" by (rule c(1))
    show "calls (ss ! 0 ! 1) = []" by (rule c(2))
    show "calls (ss ! 1 ! 0) = [NewEpisode (ws ! 1)]" by (rule c(3))
    show "calls (ss ! 1 ! 1) = []" by (rule c(4))
  qed
  from newEpisodes_initial_poses [OF h, of "[''s'']" "[''a'', ''b'']" "[0, 1]" False] n
  have f: "newEpisodes example_env [''s''] [''a'', ''b''] [0, 1] False = Inl AssertionError"
    by blast
  from h e v x f show ?thesis by (intro conjI)
qed

text \<open>
  The wording of C8 fails for beam size 0: the environment built for one agent and no
  beam slot has \<open>batchSize = 1\<close> rows, the three lists have length 1, and the call raises
  \<^verbatim>\<open>IndexError\<close> at \<^verbatim>\<open>self.sims[0][0]\<close> instead of returning a pose.
\<close>

theorem newEpisodes_without_beam_slot:
  "int (length (sims beamless_env)) = env_batch_size beamless_env \<and>
   int (length [''s'']) = env_batch_size beamless_env \<and>
   int (length [''a'']) = env_batch_size beamless_env \<and>
   int (length [0 :: real]) = env_batch_size beamless_env \<and>
   newEpisodes beamless_env [''s''] [''a''] [0] False = Inl IndexError"
  by (simp add: newEpisodes_def beamless_env_sims beamless_env_batch_size)

subsection \<open>The simple action interface\<close>










subsection \<open>Changing the beam size\<close>

text \<open>
  C10: \<^verbatim>\<open>set_beam_size\<close> with the current beam size leaves the whole state as it is, so no
  environment and no simulator is constructed. With any other value, or before a beam
  size exists, it stores the value and a new \<^verbatim>\<open>EnvBatch\<close> of \<open>batch_size\<close> rows of
  \<open>beam_size\<close> simulators each, all of them newly constructed (their identities are the
  next \<open>batch_size \<times> beam_size\<close> unused ones). Calling it twice with the same value
  equals calling it once.
\<close>

theorem set_beam_size_idempotent:
  "(beam_size st = Some b \<longrightarrow> set_beam_size b st = st) \<and>
   (beam_size st \<noteq> Some b \<longrightarrow>
      (\<exists>e. set_beam_size b st =
              st\<lparr>beam_size := Some b, env := Some e,
                 sims_created := sims_created st + nat (batch_size st) * nat b\<rparr> \<and>
            env_batch_size e = batch_size st \<and> env_beam_size e = b \<and>
            length (sims e) = nat (batch_size st) \<and>
            (\<forall>beam\<in>set (sims e). length beam = nat b) \<and>
            concat (sims e) =
              map (new_simulator (image_features st))
                [sims_created st..<sims_created st + nat (batch_size st) * nat b])) \<and>
   set_beam_size b (set_beam_size b st) = set_beam_size b st"
proof (intro conjI impI)
  assume "beam_size st = Some b"
  then show "set_beam_size b st = st" by (simp add: set_beam_size_def)
next
  assume a: "beam_size st \<noteq> Some b"
  obtain ss c where
    m: "make_sims (image_features st) (nat (batch_size st)) (nat b) (sims_created st) = (ss, c)"
    by (cases "make_sims (image_features st) (nat (batch_size st)) (nat b) (sims_created st)")
  define e where "e = \<lparr>sims = ss, env_batch_size = batch_size st, env_beam_size = b,
          env_image_features = image_features st\<rparr>"
  have i: "(case beam_size st of None \<Rightarrow> True | Some cur \<Rightarrow> b \<noteq> cur)"
    using a by (auto split: option.splits)
  have "set_beam_size b st = st\<lparr>beam_size := Some b, env := Some e, sims_created := c\<rparr>"
    using i m by (simp add: set_beam_size_def EnvBatch_init_def e_def)
  with make_sims_props [OF m]
  show "\<exists>e. set_beam_size b st =
              st\<lparr>beam_size := Some b, env := Some e,
                 sims_created := sims_created st + nat (batch_size st) * nat b\<rparr> \<and>
            env_batch_size e = batch_size st \<and> env_beam_size e = b \<and>
            length (sims e) = nat (batch_size st) \<and>
            (\<forall>beam\<in>set (sims e). length beam = nat b) \<and>
            concat (sims e) =
              map (new_simulator (image_features st))
                [sims_created st..<sims_created st + nat (batch_size st) * nat b]"
    by (intro exI [of _ e]) (simp add: e_def)
next
  have "beam_size (set_beam_size b st) = Some b"
    by (simp add: set_beam_size_def case_prod_beta split: option.splits)
  then show "set_beam_size b (set_beam_size b st) = set_beam_size b st"
    by (simp add: set_beam_size_def [of b "set_beam_size b st"])
qed

theorem set_beam_size_idempotent_witness:
  "beam_size (example_pool 2 0) \<noteq> Some 1 \<and>
   set_beam_size 1 (example_pool 2 0) =
     (example_pool 2 0)
       \<lparr>beam_size := Some 1,
        env := Some \<lparr>sims = [[new_simulator example_features 0],
                             [new_simulator example_features 1]],
                     env_batch_size = 2, env_beam_size = 1,
                     env_image_features = example_features\<rparr>,
        sims_created := 2\<rparr> \<and>
   beam_size (set_beam_size 1 (example_pool 2 0)) = Some 1 \<and>
   set_beam_size 1 (set_beam_size 1 (example_pool 2 0)) = set_beam_size 1 (example_pool 2 0) \<and>
   sims_created (set_beam_size 1 (example_pool 2 0)) = 2"
proof -
  have n: "beam_size (example_pool 2 0) \<noteq> Some 1"
    by (simp add: example_pool_def)
  have v: "set_beam_size 1 (example_pool 2 0) =
     (example_pool 2 0)
       \<lparr>beam_size := Some 1,
        env := Some \<lparr>sims = [[new_simulator example_features 0],
                             [new_simulator example_features 1]],
                     env_batch_size = 2, env_beam_size = 1,
                     env_image_features = example_features\<rparr>,
        sims_created := 2\<rparr>"
    by (simp add: set_beam_size_def example_pool_def EnvBatch_init_def numeral_2_eq_2)
  have s: "beam_size (set_beam_size 1 (example_pool 2 0)) = Some 1"
    by (simp add: v)
  from set_beam_size_idempotent [of "set_beam_size 1 (example_pool 2 0)" 1] s
  have i: "set_beam_size 1 (set_beam_size 1 (example_pool 2 0))
           = set_beam_size 1 (example_pool 2 0)"
    by blast
  from set_beam_size_idempotent [of "example_pool 2 0" 1] n
  obtain e where "set_beam_size 1 (example_pool 2 0) =
      (example_pool 2 0)\<lparr>beam_size := Some 1, env := Some e,
         sims_created := sims_created (example_pool 2 0)
                         + nat (batch_size (example_pool 2 0)) * nat 1\<rparr>"
    by blast
  then have c: "sims_created (set_beam_size 1 (example_pool 2 0)) = 2"
    by (simp add: example_pool_def)
  from n v s i c show ?thesis by (intro conjI)
qed

section \<open>Passes over the pool\<close>

lemma next_minibatch_unsorted_Inr:
  "\<exists>st' b. next_minibatch shuffle False st = Inr st' \<and> batch st' = Some b"
  by (simp add: next_minibatch_def Let_def case_prod_beta)

lemma draw_batches_total: "\<exists>bl. draw_batches shuffle False n st = Inr bl"
proof (induction n arbitrary: st)
  case 0
  show ?case by simp
next
  case (Suc n)
  obtain st' b where s: "next_minibatch shuffle False st = Inr st'" "batch st' = Some b"
    using next_minibatch_unsorted_Inr by blast
  from Suc [of st'] obtain bl where "draw_batches shuffle False n st' = Inr bl" by blast
  with s show ?case by simp
qed


























end
